theory Spec2Isabelle
  imports Complex_Main
begin

section \<open>JavaScript values and string helpers\<close>

text \<open>
  The values a caller can hand to a setter. Only strict equality with a string literal is
  ever taken of them, so numbers are kept as integers.
\<close>

datatype js_value = JUndefined | JNull | JBool bool | JNum int | JStr string

text \<open>\<open>a % b\<close> on integers: the remainder takes the sign of the dividend.\<close>

definition js_rem :: "int \<Rightarrow> int \<Rightarrow> int" where
  "js_rem a b = (if 0 \<le> a then a mod \<bar>b\<bar> else - ((- a) mod \<bar>b\<bar>))"

definition digit_char :: "nat \<Rightarrow> char" where
  "digit_char d = ''0123456789'' ! (d mod 10)"

text \<open>The value of a decimal digit, read off the table of digits; no value for other characters.\<close>

definition digit_val :: "char \<Rightarrow> nat option" where
  "digit_val c = map_of (zip ''0123456789'' [0, 1, 2, 3, 4, 5, 6, 7, 8, 9]) c"

text \<open>\<open>String(num)\<close> for a non-negative integer: its decimal digits.\<close>

fun String_of_nat :: "nat \<Rightarrow> string" where
  "String_of_nat n =
     (if n < 10 then [digit_char n] else String_of_nat (n div 10) @ [digit_char (n mod 10)])"

declare String_of_nat.simps [simp del]

text \<open>\<open>s.padStart(n, '0')\<close>: zeros in front until the length is \<open>n\<close>; longer strings are kept.\<close>

definition padStart :: "nat \<Rightarrow> char \<Rightarrow> string \<Rightarrow> string" where
  "padStart n c s = replicate (n - length s) c @ s"

text \<open>
  \<open>Number(s)\<close> on a string of decimal digits is its decimal value, and \<open>Number('')\<close> is 0.
  Every other string is mapped to \<open>None\<close>, which stands for \<open>NaN\<close>: it is strictly equal to
  no number. (Blanks, signs, fractions, exponents and radix prefixes, which \<open>Number\<close> also
  reads, do not occur in a string that passed the alarm's format check.)
\<close>

fun decimal :: "string \<Rightarrow> nat \<Rightarrow> nat option" where
  "decimal [] acc = Some acc"
| "decimal (c # cs) acc =
     (case digit_val c of None \<Rightarrow> None | Some d \<Rightarrow> decimal cs (10 * acc + d))"

definition Number :: "string \<Rightarrow> nat option" where
  "Number s = decimal s 0"

text \<open>\<open>s.split(sep)\<close> for a one-character separator.\<close>

fun split :: "char \<Rightarrow> string \<Rightarrow> string list" where
  "split sep [] = [[]]"
| "split sep (x # xs) =
     (if x = sep then [] # split sep xs
      else (case split sep xs of [] \<Rightarrow> [[x]] | w # ws \<Rightarrow> (x # w) # ws))"

text \<open>Reading an array element: \<open>undefined\<close> outside the array.\<close>

definition element :: "'a list \<Rightarrow> nat \<Rightarrow> 'a option" where
  "element xs i = (if i < length xs then Some (xs ! i) else None)"

section \<open>TimeModel\<close>

text \<open>
  The calendar fields a \<open>Date\<close> object answers with: \<open>getHours\<close>, \<open>getMinutes\<close>,
  \<open>getSeconds\<close>, \<open>getDay\<close>, \<open>getMonth\<close>, \<open>getDate\<close>, \<open>getFullYear\<close>.
\<close>

record calendar =
  getHours :: nat
  getMinutes :: nat
  getSeconds :: nat
  getDay :: nat
  getMonth :: nat
  getDate :: nat
  getFullYear :: int

record time_value =
  hours :: string
  minutes :: string
  seconds :: string
  rawHours :: nat
  rawMinutes :: nat
  rawSeconds :: nat
  period :: string
  dayName :: "string option"
  monthName :: "string option"
  dayOfMonth :: nat
  year :: int
  raw :: calendar

record hand_angles =
  hour :: real
  minute :: real
  second :: real

datatype time_event =
    timezoneChanged string
  | formatChanged js_value
  | tick time_value
  | callbackCalled nat time_value

text \<open>
  The fields of a \<open>TimeModel\<close> object. \<open>callback\<close> and \<open>animationFrameId\<close> are not set by
  the constructor, so they start as \<open>None\<close> (\<open>undefined\<close>). A callback function is known by
  a number; calling it is recorded in the host's event list.
\<close>

record time_model =
  timezone :: string
  format24 :: bool
  lastSyncTime :: int
  driftCorrection :: int
  callback :: "nat option"
  animationFrameId :: "nat option"

text \<open>
  What the browser holds for the object: how many times \<open>Date.now()\<close> has been read, the
  delays of the armed \<open>setTimeout\<close> timers (each carries the closure of
  \<open>_scheduleNextTick\<close>), the pending animation-frame requests, and the events dispatched and
  callbacks called so far, oldest first.
\<close>

record time_host =
  clockReads :: nat
  timeouts :: "int list"
  frameRequests :: "nat list"
  emitted :: "time_event list"

datatype time_error = RangeError | CallbackError

text \<open>
  The collaborators of the clock: the system clock (the value of the n-th \<open>Date.now()\<close>
  read), the local calendar fields of an instant, the calendar fields of an instant in a
  named zone (the \<open>Intl.DateTimeFormat\<close> rendering read back through \<open>new Date\<close>), which are
  \<open>None\<close> when \<open>Intl.DateTimeFormat\<close> rejects the zone name and throws a \<open>RangeError\<close>, and
  whether the callback of a given number throws when it is called with a time value.
  Listeners of dispatched events cannot make \<open>dispatchEvent\<close> throw.
\<close>

record time_env =
  systemClock :: "nat \<Rightarrow> int"
  localFields :: "int \<Rightarrow> calendar"
  zoneFields :: "string \<Rightarrow> int \<Rightarrow> calendar option"
  callbackThrows :: "nat \<Rightarrow> time_value \<Rightarrow> bool"

type_synonym time_state = "time_model \<times> time_host"

definition Date_now :: "time_env \<Rightarrow> time_host \<Rightarrow> int \<times> time_host" where
  "Date_now env h = (systemClock env (clockReads h), h\<lparr>clockReads := Suc (clockReads h)\<rparr>)"

definition dispatchEvent :: "time_event \<Rightarrow> time_host \<Rightarrow> time_host" where
  "dispatchEvent e h = h\<lparr>emitted := emitted h @ [e]\<rparr>"

definition TimeModel_new :: "time_env \<Rightarrow> time_host \<Rightarrow> time_state" where
  "TimeModel_new env h =
     (let (t, h1) = Date_now env h
      in (\<lparr>timezone = ''local'', format24 = False, lastSyncTime = t, driftCorrection = 0,
           callback = None, animationFrameId = None\<rparr>, h1))"

definition setTimezone :: "string \<Rightarrow> time_state \<Rightarrow> time_state" where
  "setTimezone tz s =
     (case s of (m, h) \<Rightarrow> (m\<lparr>timezone := tz\<rparr>, dispatchEvent (timezoneChanged tz) h))"

definition getTimezone :: "time_state \<Rightarrow> string" where
  "getTimezone s = timezone (fst s)"

definition setFormat :: "js_value \<Rightarrow> time_state \<Rightarrow> time_state" where
  "setFormat format s =
     (case s of (m, h) \<Rightarrow>
        (m\<lparr>format24 := (format = JStr ''24h'')\<rparr>, dispatchEvent (formatChanged format) h))"

definition padZero :: "nat \<Rightarrow> string" where
  "padZero num = padStart 2 (CHR ''0'') (String_of_nat num)"

definition dayNames :: "string list" where
  "dayNames = [''Sunday'', ''Monday'', ''Tuesday'', ''Wednesday'', ''Thursday'', ''Friday'',
               ''Saturday'']"

definition monthNames :: "string list" where
  "monthNames = [''January'', ''February'', ''March'', ''April'', ''May'', ''June'',
                 ''July'', ''August'', ''September'', ''October'', ''November'', ''December'']"

text \<open>
  \<open>getTime\<close> and \<open>getHandAngles\<close> return the error they throw (\<open>Inl\<close>) or their value, next
  to the state they leave behind; the clock has been read before the zone is looked up.
\<close>

definition getTime ::
  "time_env \<Rightarrow> time_state \<Rightarrow> (time_error + time_value) \<times> time_state" where
  "getTime env s =
     (case s of (m, h) \<Rightarrow>
        let (t, h1) = Date_now env h;
            now = t + driftCorrection m
        in (case (if timezone m = ''local'' then Some (localFields env now)
                  else zoneFields env (timezone m) now) of
              None \<Rightarrow> (Inl RangeError, (m, h1))
            | Some date \<Rightarrow>
                let hours0 = getHours date;
                    minutes0 = getMinutes date;
                    seconds0 = getSeconds date;
                    period1 = (if \<not> format24 m then (if 12 \<le> hours0 then ''PM'' else ''AM'')
                               else ''AM'');
                    hours1 = (if \<not> format24 m
                              then (if hours0 mod 12 = 0 then 12 else hours0 mod 12)
                              else hours0)
                in (Inr \<lparr>hours = padZero hours1, minutes = padZero minutes0,
                         seconds = padZero seconds0,
                         rawHours = hours1, rawMinutes = minutes0, rawSeconds = seconds0,
                         period = period1,
                         dayName = element dayNames (getDay date),
                         monthName = element monthNames (getMonth date),
                         dayOfMonth = getDate date, year = getFullYear date, raw = date\<rparr>,
                    (m, h1))))"

definition getHandAngles ::
  "time_env \<Rightarrow> time_state \<Rightarrow> (time_error + hand_angles) \<times> time_state" where
  "getHandAngles env s =
     (case getTime env s of (r, s1) \<Rightarrow>
        (case r of
           Inl e \<Rightarrow> (Inl e, s1)
         | Inr time \<Rightarrow>
             let secondAngle = (real (rawSeconds time) / 60) * 360;
                 minuteAngle = (real (rawMinutes time) / 60) * 360
                               + (real (rawSeconds time) / 60) * 6;
                 hourAngle = (real (rawHours time) / 12) * 360
                             + (real (rawMinutes time) / 60) * 30
             in (Inr \<lparr>hour = hourAngle, minute = minuteAngle, second = secondAngle\<rparr>, s1)))"

definition correctDrift :: "time_env \<Rightarrow> time_state \<Rightarrow> time_state" where
  "correctDrift env s =
     (case s of (m, h) \<Rightarrow>
        let (now, h1) = Date_now env h;
            theoreticalTime = lastSyncTime m + 60000
        in (m\<lparr>driftCorrection := driftCorrection m + (theoreticalTime - now),
              lastSyncTime := now\<rparr>, h1))"

text \<open>
  \<open>_onTick\<close> returns the error that leaves it, if any, next to the state at that point. An
  error of \<open>getTime\<close> ends the tick at once; a callback that throws has been called, and the
  \<open>tick\<close> event is then not dispatched.
\<close>

definition onTick :: "time_env \<Rightarrow> time_state \<Rightarrow> time_error option \<times> time_state" where
  "onTick env s =
     (case s of (m, h) \<Rightarrow>
        let (t, h1) = Date_now env h;
            s1 = (if t - lastSyncTime m > 60000 then correctDrift env (m, h1) else (m, h1));
            r2 = (case callback (fst s1) of
                    None \<Rightarrow> (None, s1)
                  | Some f \<Rightarrow>
                      (case getTime env s1 of (r, s2) \<Rightarrow>
                         (case r of
                            Inl e \<Rightarrow> (Some e, s2)
                          | Inr tv \<Rightarrow>
                              (if callbackThrows env f tv then Some CallbackError else None,
                               (fst s2, dispatchEvent (callbackCalled f tv) (snd s2))))))
        in (case fst r2 of
              Some e \<Rightarrow> r2
            | None \<Rightarrow>
                (case getTime env (snd r2) of (r, s3) \<Rightarrow>
                   (case r of
                      Inl e \<Rightarrow> (Some e, s3)
                    | Inr tv3 \<Rightarrow> (None, (fst s3, dispatchEvent (tick tv3) (snd s3)))))))"

text \<open>
  \<open>_scheduleNextTick\<close> arms one timer; the handle that \<open>setTimeout\<close> returns is dropped.
\<close>

definition scheduleNextTick :: "time_env \<Rightarrow> time_state \<Rightarrow> time_state" where
  "scheduleNextTick env s =
     (case s of (m, h) \<Rightarrow>
        let (now, h1) = Date_now env h;
            msUntilNextSecond = 1000 - js_rem now 1000
        in (m, h1\<lparr>timeouts := timeouts h1 @ [msUntilNextSecond]\<rparr>))"

text \<open>
  The browser runs the closure of the k-th armed timer: the timer leaves the list, then
  \<open>_onTick\<close> runs and, when it has returned, \<open>_scheduleNextTick\<close>. An error that leaves
  \<open>_onTick\<close> leaves the closure too (there is no \<open>try\<close> around it), so no timer is armed then;
  the error is returned next to the state. With no such timer nothing happens.
\<close>

definition timeoutFires ::
  "time_env \<Rightarrow> nat \<Rightarrow> time_state \<Rightarrow> time_error option \<times> time_state" where
  "timeoutFires env k s =
     (case s of (m, h) \<Rightarrow>
        if k < length (timeouts h)
        then (case onTick env
                     (m, h\<lparr>timeouts := take k (timeouts h) @ drop (Suc k) (timeouts h)\<rparr>) of
                (r, s1) \<Rightarrow>
                  (case r of
                     Some e \<Rightarrow> (Some e, s1)
                   | None \<Rightarrow> (None, scheduleNextTick env s1)))
        else (None, s))"

definition start :: "time_env \<Rightarrow> nat option \<Rightarrow> time_state \<Rightarrow> nat option \<times> time_state" where
  "start env cb s =
     (case s of (m, h) \<Rightarrow>
        let s1 = scheduleNextTick env (m\<lparr>callback := cb\<rparr>, h)
        in (animationFrameId (fst s1), s1))"

text \<open>
  \<open>cancelAnimationFrame(id)\<close> removes the animation-frame request with that id; it does
  not look at the \<open>setTimeout\<close> timers. The test \<open>if (this.animationFrameId)\<close> fails for
  \<open>undefined\<close>, \<open>null\<close> and 0.
\<close>

definition cancelAnimationFrame :: "nat \<Rightarrow> time_host \<Rightarrow> time_host" where
  "cancelAnimationFrame i h = h\<lparr>frameRequests := removeAll i (frameRequests h)\<rparr>"

definition stop :: "time_state \<Rightarrow> time_state" where
  "stop s =
     (case s of (m, h) \<Rightarrow>
        (case animationFrameId m of
           None \<Rightarrow> s
         | Some i \<Rightarrow>
             if i \<noteq> 0 then (m\<lparr>animationFrameId := None\<rparr>, cancelAnimationFrame i h) else s))"

section \<open>AlarmModel\<close>

record alarm =
  alarm_id :: int
  time :: string
  enabled :: bool
  createdAt :: string

datatype alarm_error = InvalidFormat

datatype alarm_event =
    alarmSet alarm
  | alarmCleared
  | alarmToggled bool
  | alarmPlayingChanged bool

record alarm_model =
  alarms :: "alarm list"
  activeAlarm :: "alarm option"
  isPlaying :: bool

text \<open>
  What the browser holds for the alarm: the entry of \<open>localStorage\<close> under
  \<open>CONFIG.STORAGE_KEYS.ALARMS\<close> (kept as the object its JSON text stands for, \<open>None\<close> when
  the key is absent) and the events dispatched so far, oldest first.
\<close>

record alarm_host =
  stored :: "alarm option"
  dispatched :: "alarm_event list"

text \<open>
  What one call reads from outside: \<open>Date.now()\<close>, \<open>new Date().toISOString()\<close>, and whether
  \<open>localStorage\<close> answers or throws (the \<open>catch\<close> blocks log the failure and go on).
\<close>

record alarm_env =
  nowMs :: int
  nowIso :: string
  storageWorks :: bool

type_synonym alarm_state = "alarm_model \<times> alarm_host"

definition isValidTimeFormat :: "string \<Rightarrow> bool" where
  "isValidTimeFormat t =
     (case t of
        [h1, h2, c, m1, m2] \<Rightarrow>
          ((h1 \<in> set ''01'' \<and> h2 \<in> set ''0123456789'') \<or> (h1 = CHR ''2'' \<and> h2 \<in> set ''0123''))
          \<and> c = CHR '':'' \<and> m1 \<in> set ''012345'' \<and> m2 \<in> set ''0123456789''
      | _ \<Rightarrow> False)"

definition loadFromStorage :: "bool \<Rightarrow> alarm_state \<Rightarrow> alarm_state" where
  "loadFromStorage works s =
     (case s of (m, h) \<Rightarrow>
        if works
        then (case stored h of Some a \<Rightarrow> (m\<lparr>activeAlarm := Some a\<rparr>, h) | None \<Rightarrow> s)
        else s)"

definition saveToStorage :: "bool \<Rightarrow> alarm_state \<Rightarrow> alarm_state" where
  "saveToStorage works s =
     (case s of (m, h) \<Rightarrow>
        if works
        then (case activeAlarm m of
                Some a \<Rightarrow> (m, h\<lparr>stored := Some a\<rparr>)
              | None \<Rightarrow> (m, h\<lparr>stored := None\<rparr>))
        else s)"

definition dispatchAlarmEvent :: "alarm_event \<Rightarrow> alarm_state \<Rightarrow> alarm_state" where
  "dispatchAlarmEvent e s = (case s of (m, h) \<Rightarrow> (m, h\<lparr>dispatched := dispatched h @ [e]\<rparr>))"

definition AlarmModel_new :: "bool \<Rightarrow> alarm_host \<Rightarrow> alarm_state" where
  "AlarmModel_new works h =
     loadFromStorage works (\<lparr>alarms = [], activeAlarm = None, isPlaying = False\<rparr>, h)"

text \<open>
  \<open>setAlarm\<close> returns the error it throws, if any, next to the state it leaves behind.
\<close>

definition setAlarm ::
  "alarm_env \<Rightarrow> string \<Rightarrow> bool \<Rightarrow> alarm_state \<Rightarrow> alarm_error option \<times> alarm_state" where
  "setAlarm env t en s =
     (if \<not> isValidTimeFormat t then (Some InvalidFormat, s)
      else (case s of (m, h) \<Rightarrow>
        let a = \<lparr>alarm_id = nowMs env, time = t, enabled = en, createdAt = nowIso env\<rparr>;
            s1 = (m\<lparr>activeAlarm := Some a\<rparr>, h);
            s2 = saveToStorage (storageWorks env) s1
        in (None, dispatchAlarmEvent (alarmSet a) s2)))"

definition shouldTrigger :: "alarm_state \<Rightarrow> time_value \<Rightarrow> bool" where
  "shouldTrigger s currentTime =
     (case activeAlarm (fst s) of
        None \<Rightarrow> False
      | Some a \<Rightarrow>
          if \<not> enabled a then False
          else (let parts = map Number (split (CHR '':'') (time a));
                    alarmHours = Option.bind (element parts 0) (\<lambda>x. x);
                    alarmMinutes = Option.bind (element parts 1) (\<lambda>x. x)
                in Some (rawHours currentTime) = alarmHours
                   \<and> Some (rawMinutes currentTime) = alarmMinutes
                   \<and> rawSeconds currentTime = 0))"

definition clearAlarm :: "alarm_env \<Rightarrow> alarm_state \<Rightarrow> alarm_state" where
  "clearAlarm env s =
     (case s of (m, h) \<Rightarrow>
        dispatchAlarmEvent alarmCleared
          (saveToStorage (storageWorks env) (m\<lparr>activeAlarm := None, isPlaying := False\<rparr>, h)))"

definition toggleAlarm :: "alarm_env \<Rightarrow> bool \<Rightarrow> alarm_state \<Rightarrow> alarm_state" where
  "toggleAlarm env en s =
     (case s of (m, h) \<Rightarrow>
        (case activeAlarm m of
           None \<Rightarrow> s
         | Some a \<Rightarrow>
             dispatchAlarmEvent (alarmToggled en)
               (saveToStorage (storageWorks env) (m\<lparr>activeAlarm := Some (a\<lparr>enabled := en\<rparr>)\<rparr>, h))))"

definition getAlarm :: "alarm_state \<Rightarrow> alarm option" where
  "getAlarm s = activeAlarm (fst s)"

definition setPlaying :: "bool \<Rightarrow> alarm_state \<Rightarrow> alarm_state" where
  "setPlaying playing s =
     (case s of (m, h) \<Rightarrow>
        dispatchAlarmEvent (alarmPlayingChanged playing) (m\<lparr>isPlaying := playing\<rparr>, h))"

text \<open>
  The states of the alarm that a browser can reach: a fresh page with nothing stored, then
  any calls of \<open>setAlarm\<close>, \<open>clearAlarm\<close> and \<open>toggleAlarm\<close>, and any reload of the page, which
  builds a new model from what is stored.
\<close>

definition alarm_host0 :: alarm_host where
  "alarm_host0 = \<lparr>stored = None, dispatched = []\<rparr>"

inductive reachable :: "alarm_state \<Rightarrow> bool" where
  fresh: "reachable (AlarmModel_new works alarm_host0)"
| set: "reachable s \<Longrightarrow> reachable (snd (setAlarm env t en s))"
| clear: "reachable s \<Longrightarrow> reachable (clearAlarm env s)"
| toggle: "reachable s \<Longrightarrow> reachable (toggleAlarm env en s)"
| reload: "reachable s \<Longrightarrow> reachable (AlarmModel_new works (snd s))"

section \<open>Reference notions and test doubles\<close>

text \<open>
  The \<open>HH:MM\<close> rendering of an hour and a minute: two decimal digits each. The valid alarm
  times are these strings for hours below 24 and minutes below 60.
\<close>

definition two_digits :: "nat \<Rightarrow> string" where
  "two_digits n = [digit_char (n div 10), digit_char (n mod 10)]"

definition hhmm :: "nat \<Rightarrow> nat \<Rightarrow> string" where
  "hhmm h m = two_digits h @ '':'' @ two_digits m"

text \<open>
  A test clock: every read of the system clock returns the same instant, and the calendar
  is read off the instant as in UTC. Day, month and year are right for instants in January
  1970, which is where the sample runs below stay (1 January 1970 was a Thursday). The only zone
  name it knows is \<open>UTC\<close>, and no callback throws.
\<close>

definition utc_fields :: "int \<Rightarrow> calendar" where
  "utc_fields ms =
     \<lparr>getHours = nat ((ms div 3600000) mod 24),
      getMinutes = nat ((ms div 60000) mod 60),
      getSeconds = nat ((ms div 1000) mod 60),
      getDay = nat ((ms div 86400000 + 4) mod 7),
      getMonth = 0,
      getDate = nat (ms div 86400000 + 1),
      getFullYear = 1970\<rparr>"

definition fixed_clock :: "int \<Rightarrow> time_env" where
  "fixed_clock ms =
     \<lparr>systemClock = (\<lambda>_. ms), localFields = utc_fields,
      zoneFields = (\<lambda>tz t. if tz = ''UTC'' then Some (utc_fields t) else None),
      callbackThrows = (\<lambda>_ _. False)\<rparr>"

definition time_host0 :: time_host where
  "time_host0 = \<lparr>clockReads = 0, timeouts = [], frameRequests = [], emitted = []\<rparr>"

definition alarm_env0 :: alarm_env where
  "alarm_env0 = \<lparr>nowMs = 0, nowIso = ''1970-01-01T00:00:00.000Z'', storageWorks = True\<rparr>"

text \<open>The stored alarm is absent or its time has the \<open>HH:MM\<close> form.\<close>

definition alarm_ok :: "alarm option \<Rightarrow> bool" where
  "alarm_ok x = (case x of None \<Rightarrow> True | Some a \<Rightarrow> isValidTimeFormat (time a))"

definition alarm_inv :: "alarm_state \<Rightarrow> bool" where
  "alarm_inv s = (alarm_ok (activeAlarm (fst s)) \<and> alarm_ok (stored (snd s)))"

text \<open>
  Sample alarm states: a fresh model, one with a disabled alarm at 07:30, one with an
  enabled alarm at 07:30 and one with an enabled alarm at 13:00.
\<close>

definition alarm_state0 :: alarm_state where
  "alarm_state0 = AlarmModel_new True alarm_host0"

definition alarm_state1 :: alarm_state where
  "alarm_state1 =
     toggleAlarm alarm_env0 False (snd (setAlarm alarm_env0 ''07:30'' True alarm_state0))"

definition alarm_state2 :: alarm_state where
  "alarm_state2 = snd (setAlarm alarm_env0 ''07:30'' True alarm_state0)"

definition alarm_state_1300 :: alarm_state where
  "alarm_state_1300 = snd (setAlarm alarm_env0 ''13:00'' True alarm_state0)"

text \<open>
  The calendar that \<open>getTime\<close> reads in a state: the fields of the next clock read plus
  the drift correction, local or in the model's zone; none when the zone name is rejected.
\<close>

definition calendar_now :: "time_env \<Rightarrow> time_state \<Rightarrow> calendar option" where
  "calendar_now env s =
     (let now = systemClock env (clockReads (snd s)) + driftCorrection (fst s)
      in if timezone (fst s) = ''local'' then Some (localFields env now)
         else zoneFields env (timezone (fst s)) now)"

text \<open>
  Sample clock states: a fresh model under the fixed test clock, the time value of
  07:30:00 on 1 January 1970 in 12-hour mode, a fresh model under a clock that advances by
  \<open>step\<close> milliseconds on every read, a model started with callback 1, and that model after
  \<open>setTimezone\<close> with a zone name that \<open>Intl.DateTimeFormat\<close> rejects.
\<close>

definition time_state0 :: "int \<Rightarrow> time_state" where
  "time_state0 ms = TimeModel_new (fixed_clock ms) time_host0"

definition time_value_0730 :: time_value where
  "time_value_0730 =
     \<lparr>hours = ''07'', minutes = ''30'', seconds = ''00'',
      rawHours = 7, rawMinutes = 30, rawSeconds = 0, period = ''AM'',
      dayName = Some ''Thursday'', monthName = Some ''January'', dayOfMonth = 1, year = 1970,
      raw = utc_fields 27000000\<rparr>"



definition started_state :: time_state where
  "started_state = snd (start (fixed_clock 0) (Some 1) (time_state0 0))"


section \<open>Digits and the time format\<close>

lemma lt10_cases:
  "(d::nat) < 10 \<Longrightarrow> d = 0 \<or> d = 1 \<or> d = 2 \<or> d = 3 \<or> d = 4 \<or> d = 5 \<or> d = 6 \<or> d = 7 \<or> d = 8 \<or> d = 9"
  by arith

lemma digit_val_chars [simp]:
  "digit_val (CHR ''0'') = Some 0" "digit_val (CHR ''1'') = Some 1"
  "digit_val (CHR ''2'') = Some 2" "digit_val (CHR ''3'') = Some 3"
  "digit_val (CHR ''4'') = Some 4" "digit_val (CHR ''5'') = Some 5"
  "digit_val (CHR ''6'') = Some 6" "digit_val (CHR ''7'') = Some 7"
  "digit_val (CHR ''8'') = Some 8" "digit_val (CHR ''9'') = Some 9"
  by (simp_all add: digit_val_def)

lemma digit_val_digit_char: "d < 10 \<Longrightarrow> digit_val (digit_char d) = Some d"
  using lt10_cases [of d] by (auto simp: digit_char_def digit_val_def)

lemma digit_char_digit_val: "digit_val c = Some d \<Longrightarrow> digit_char d = c \<and> d < 10"
  by (auto simp: digit_char_def digit_val_def split: if_splits)

lemma digit_val_mem: "c \<in> set ''0123456789'' \<longleftrightarrow> (\<exists>d. digit_val c = Some d)"
  by (auto simp: digit_val_def)

lemma digit_char_not_colon: "digit_char d \<noteq> CHR '':''"
proof -
  have "d mod 10 < 10" by simp
  from lt10_cases [OF this] show ?thesis
    by (auto simp: digit_char_def)
qed

lemma two_digits_compose: "b < 10 \<Longrightarrow> two_digits (10 * a + b) = [digit_char a, digit_char b]"
  by (simp add: two_digits_def)

lemma Number_two_digits: "n < 100 \<Longrightarrow> Number (two_digits n) = Some n"
proof -
  assume n: "n < 100"
  then have "n div 10 < 10" and "n mod 10 < 10" by simp_all
  then show ?thesis
    by (simp add: Number_def two_digits_def digit_val_digit_char)
qed

lemma two_digits_00: "n < 100 \<Longrightarrow> two_digits n = ''00'' \<Longrightarrow> n = 0"
  using Number_two_digits [of n] by (simp add: Number_def)

lemma split_hhmm: "split (CHR '':'') (hhmm h m) = [two_digits h, two_digits m]"
  by (simp add: hhmm_def two_digits_def digit_char_not_colon)

lemma hour_digits_valid:
  assumes "h < 24"
  shows "(digit_char (h div 10) \<in> set ''01'' \<and> digit_char (h mod 10) \<in> set ''0123456789'')
       \<or> (digit_char (h div 10) = CHR ''2'' \<and> digit_char (h mod 10) \<in> set ''0123'')"
proof (cases "h < 20")
  case True
  then have "h div 10 = 0 \<or> h div 10 = 1" by arith
  moreover have "digit_char (h mod 10) \<in> set ''0123456789''"
    using lt10_cases [of "h mod 10"] by (auto simp: digit_char_def)
  ultimately show ?thesis by (auto simp: digit_char_def)
next
  case False
  with assms have "h div 10 = 2" and "h mod 10 = 0 \<or> h mod 10 = 1 \<or> h mod 10 = 2 \<or> h mod 10 = 3"
    by arith+
  then show ?thesis by (auto simp: digit_char_def)
qed

lemma minute_digits_valid:
  assumes "m < 60"
  shows "digit_char (m div 10) \<in> set ''012345'' \<and> digit_char (m mod 10) \<in> set ''0123456789''"
proof -
  from assms have "m div 10 = 0 \<or> m div 10 = 1 \<or> m div 10 = 2 \<or> m div 10 = 3 \<or> m div 10 = 4 \<or> m div 10 = 5"
    by arith
  moreover have "digit_char (m mod 10) \<in> set ''0123456789''"
    using lt10_cases [of "m mod 10"] by (auto simp: digit_char_def)
  ultimately show ?thesis by (auto simp: digit_char_def)
qed

lemma isValidTimeFormat_hhmm: "h < 24 \<Longrightarrow> m < 60 \<Longrightarrow> isValidTimeFormat (hhmm h m)"
  using hour_digits_valid [of h] minute_digits_valid [of m]
  by (simp add: isValidTimeFormat_def hhmm_def two_digits_def)

lemma valid_is_hhmm:
  assumes "isValidTimeFormat t"
  shows "\<exists>h<24. \<exists>m<60. t = hhmm h m"
proof -
  from assms obtain h1 h2 c m1 m2 where t: "t = [h1, h2, c, m1, m2]"
    by (auto simp: isValidTimeFormat_def split: list.splits)
  from assms t have c: "c = CHR '':''"
    and hh: "(h1 \<in> set ''01'' \<and> h2 \<in> set ''0123456789'') \<or> (h1 = CHR ''2'' \<and> h2 \<in> set ''0123'')"
    and mm: "m1 \<in> set ''012345''" "m2 \<in> set ''0123456789''"
    by (simp_all add: isValidTimeFormat_def)
  from hh obtain a b where ab: "digit_val h1 = Some a" "digit_val h2 = Some b" "10 * a + b < 24"
    by auto
  from mm obtain p q where pq: "digit_val m1 = Some p" "digit_val m2 = Some q" "10 * p + q < 60"
    by auto
  from ab have "two_digits (10 * a + b) = [h1, h2]"
    using digit_char_digit_val [of h1 a] digit_char_digit_val [of h2 b]
    by (simp add: two_digits_compose)
  moreover from pq have "two_digits (10 * p + q) = [m1, m2]"
    using digit_char_digit_val [of m1 p] digit_char_digit_val [of m2 q]
    by (simp add: two_digits_compose)
  ultimately have "t = hhmm (10 * a + b) (10 * p + q)"
    by (simp add: t c hhmm_def)
  with ab(3) pq(3) show ?thesis by blast
qed

lemma isValidTimeFormat_iff: "isValidTimeFormat t \<longleftrightarrow> (\<exists>h<24. \<exists>m<60. t = hhmm h m)"
  using valid_is_hhmm isValidTimeFormat_hhmm by blast

lemma hhmm_7_30: "hhmm 7 30 = ''07:30''"
  by (simp add: hhmm_def two_digits_def digit_char_def)

lemma hhmm_13_00: "hhmm 13 0 = ''13:00''"
  by (simp add: hhmm_def two_digits_def digit_char_def)

lemma padZero_two_digits: "n < 100 \<Longrightarrow> padZero n = two_digits n"
proof (cases "n < 10")
  case True
  then show ?thesis
    by (simp add: padZero_def padStart_def two_digits_def String_of_nat.simps [of n]
          digit_char_def)
next
  case False
  assume "n < 100"
  with False have "n div 10 < 10" by simp
  with False show ?thesis
    by (simp add: padZero_def padStart_def two_digits_def String_of_nat.simps [of n]
          String_of_nat.simps [of "n div 10"])
qed

section \<open>Properties of the clock\<close>

subsection \<open>What \<open>getTime\<close> returns\<close>

lemma getTime_state:
  "snd (getTime env s) = (fst s, (snd s)\<lparr>clockReads := Suc (clockReads (snd s))\<rparr>)"
  by (cases s) (simp add: getTime_def Date_now_def Let_def split: option.split)

lemma getTime_throws: "calendar_now env s = None \<Longrightarrow> fst (getTime env s) = Inl RangeError"
  by (cases s) (auto simp: getTime_def calendar_now_def Date_now_def Let_def split: if_splits)

lemma getTime_value:
  "calendar_now env s = Some date \<Longrightarrow>
   fst (getTime env s) =
     Inr \<lparr>hours = padZero (if \<not> format24 (fst s)
                             then (if getHours date mod 12 = 0 then 12 else getHours date mod 12)
                             else getHours date),
          minutes = padZero (getMinutes date), seconds = padZero (getSeconds date),
          rawHours = (if \<not> format24 (fst s)
                      then (if getHours date mod 12 = 0 then 12 else getHours date mod 12)
                      else getHours date),
          rawMinutes = getMinutes date, rawSeconds = getSeconds date,
          period = (if \<not> format24 (fst s) then (if 12 \<le> getHours date then ''PM'' else ''AM'')
                    else ''AM''),
          dayName = element dayNames (getDay date),
          monthName = element monthNames (getMonth date),
          dayOfMonth = getDate date, year = getFullYear date, raw = date\<rparr>"
  by (cases s) (auto simp: getTime_def calendar_now_def Date_now_def Let_def split: if_splits)

lemma getTime_returns:
  assumes "calendar_now env s = Some date"
  shows "\<exists>tv. fst (getTime env s) = Inr tv \<and> raw tv = date \<and>
              rawHours tv = (if format24 (fst s) then getHours date
                             else if getHours date mod 12 = 0 then 12 else getHours date mod 12) \<and>
              rawMinutes tv = getMinutes date \<and> rawSeconds tv = getSeconds date \<and>
              hours tv = padZero (rawHours tv) \<and>
              period tv = (if \<not> format24 (fst s) \<and> 12 \<le> getHours date then ''PM'' else ''AM'')"
  by (simp add: getTime_value [OF assms])

lemma getTime_Inr_calendar:
  "fst (getTime env s) = Inr tv \<Longrightarrow> calendar_now env s = Some (raw tv)"
  by (cases "calendar_now env s") (auto simp: getTime_throws getTime_value)

lemma calendar_now_local:
  "timezone (fst s) = ''local'' \<Longrightarrow>
   calendar_now env s =
     Some (localFields env (systemClock env (clockReads (snd s)) + driftCorrection (fst s)))"
  by (simp add: calendar_now_def)

lemma calendar_now_fixed:
  "calendar_now (fixed_clock ms) (time_state0 ms') = Some (utc_fields ms)"
  by (simp add: calendar_now_def fixed_clock_def time_state0_def TimeModel_new_def Date_now_def)

lemma format24_state0: "\<not> format24 (fst (time_state0 ms))"
  by (simp add: time_state0_def TimeModel_new_def Date_now_def)

lemma hours_fixed: "getHours (utc_fields 0) = 0" "getHours (utc_fields 43200000) = 12"
  "getHours (utc_fields 46800000) = 13"
  by (simp_all add: utc_fields_def)

lemma setFormat_format24: "format24 (fst (setFormat v s)) = (v = JStr ''24h'')"
  by (cases s) (simp add: setFormat_def)

lemma calendar_now_setFormat: "calendar_now env (setFormat v s) = calendar_now env s"
  by (cases s) (simp add: setFormat_def calendar_now_def dispatchEvent_def Let_def)

lemma hour12_range: "1 \<le> (if H mod 12 = 0 then 12 else H mod 12) \<and> (if H mod 12 = 0 then 12 else H mod 12) \<le> (12::nat)"
  by (simp add: Suc_leI less_imp_le)

lemma fixed_clock_read: "systemClock (fixed_clock ms) n = ms"
  by (simp add: fixed_clock_def)

lemma fixed_clock_quiet: "\<not> callbackThrows (fixed_clock ms) f tv"
  by (simp add: fixed_clock_def)

lemma time_state0_fields:
  "lastSyncTime (fst (time_state0 ms)) = ms" "driftCorrection (fst (time_state0 ms)) = 0"
  "clockReads (snd (time_state0 ms)) = 1" "timeouts (snd (time_state0 ms)) = []"
  "emitted (snd (time_state0 ms)) = []" "animationFrameId (fst (time_state0 ms)) = None"
  "timezone (fst (time_state0 ms)) = ''local''"
  by (simp_all add: time_state0_def TimeModel_new_def Date_now_def fixed_clock_def
        time_host0_def)

lemma time_value_0730_returned:
  "fst (getTime (fixed_clock 27000000) (time_state0 27000000)) = Inr time_value_0730"
proof -
  have p: "padZero 7 = ''07''" "padZero 30 = ''30''" "padZero 0 = ''00''"
    by (simp_all add: padZero_two_digits two_digits_def digit_char_def)
  have u: "getHours (utc_fields 27000000) = 7" "getMinutes (utc_fields 27000000) = 30"
    "getSeconds (utc_fields 27000000) = 0" "getDay (utc_fields 27000000) = 4"
    "getMonth (utc_fields 27000000) = 0" "getDate (utc_fields 27000000) = 1"
    "getFullYear (utc_fields 27000000) = 1970"
    by (simp_all add: utc_fields_def)
  show ?thesis
    unfolding getTime_value [OF calendar_now_fixed] time_value_0730_def u
    by (simp add: p format24_state0 element_def dayNames_def monthNames_def)
qed

text \<open>
  C9: in 12-hour mode a calendar hour of 0 is shown as \<open>12\<close> with period AM, 12 as \<open>12\<close>
  with PM and 13 as \<open>01\<close> with PM; for every hour the shown value is the hour modulo 12 with
  12 in place of 0, so it is never \<open>00\<close>. In 24-hour mode the hour is left as it is and no
  period is worked out from it: the field keeps its initial value \<open>AM\<close> whatever the hour.
  This holds of the value that \<open>getTime\<close> returns whenever the calendar of the instant can
  be read (always for the local zone).
\<close>

theorem getTime_hour_display:
  assumes "calendar_now env s = Some date" and "H = getHours date"
  shows "\<exists>tv. fst (getTime env s) = Inr tv \<and>
         (\<not> format24 (fst s) \<and> H = 0 \<longrightarrow> hours tv = ''12'' \<and> period tv = ''AM'') \<and>
         (\<not> format24 (fst s) \<and> H = 12 \<longrightarrow> hours tv = ''12'' \<and> period tv = ''PM'') \<and>
         (\<not> format24 (fst s) \<and> H = 13 \<longrightarrow> hours tv = ''01'' \<and> period tv = ''PM'') \<and>
         (\<not> format24 (fst s) \<longrightarrow>
            hours tv = padZero (if H mod 12 = 0 then 12 else H mod 12) \<and>
            period tv = (if 12 \<le> H then ''PM'' else ''AM'') \<and> hours tv \<noteq> ''00'') \<and>
         (format24 (fst s) \<longrightarrow> rawHours tv = H \<and> hours tv = padZero H \<and> period tv = ''AM'')"
proof -
  from getTime_returns [OF assms(1)] obtain tv where tv: "fst (getTime env s) = Inr tv"
    and rh: "rawHours tv = (if format24 (fst s) then H
                            else if H mod 12 = 0 then 12 else H mod 12)"
    and hs: "hours tv = padZero (rawHours tv)"
    and pd: "period tv = (if \<not> format24 (fst s) \<and> 12 \<le> H then ''PM'' else ''AM'')"
    using assms(2) by auto
  let ?h12 = "if H mod 12 = 0 then 12 else H mod 12"
  have gen: "\<not> format24 (fst s) \<longrightarrow> hours tv = padZero ?h12 \<and>
      period tv = (if 12 \<le> H then ''PM'' else ''AM'')"
    using rh hs pd by simp
  have ne: "padZero ?h12 \<noteq> ''00''"
  proof
    assume z: "padZero ?h12 = ''00''"
    have "?h12 < 100" using hour12_range [of H] by linarith
    with z have "?h12 = 0" using padZero_two_digits two_digits_00 by metis
    with hour12_range [of H] show False by linarith
  qed
  have p12: "padZero 12 = ''12''" and p1: "padZero 1 = ''01''"
    by (simp_all add: padZero_two_digits two_digits_def digit_char_def)
  have h24: "format24 (fst s) \<longrightarrow> rawHours tv = H \<and> hours tv = padZero H \<and> period tv = ''AM''"
    using rh hs pd by simp
  have c0: "\<not> format24 (fst s) \<and> H = 0 \<longrightarrow> hours tv = ''12'' \<and> period tv = ''AM''"
    using gen p12 by simp
  have c12: "\<not> format24 (fst s) \<and> H = 12 \<longrightarrow> hours tv = ''12'' \<and> period tv = ''PM''"
    using gen p12 by simp
  have c13: "\<not> format24 (fst s) \<and> H = 13 \<longrightarrow> hours tv = ''01'' \<and> period tv = ''PM''"
    using gen p1 by simp
  from tv gen ne h24 c0 c12 c13 show ?thesis by simp
qed

theorem getTime_hour_display_witness:
  "(\<exists>tv. fst (getTime (fixed_clock 0) (time_state0 0)) = Inr tv \<and>
         hours tv = ''12'' \<and> period tv = ''AM'') \<and>
   (\<exists>tv. fst (getTime (fixed_clock 43200000) (time_state0 43200000)) = Inr tv \<and>
         hours tv = ''12'' \<and> period tv = ''PM'') \<and>
   (\<exists>tv. fst (getTime (fixed_clock 46800000) (time_state0 46800000)) = Inr tv \<and>
         hours tv = ''01'' \<and> period tv = ''PM'') \<and>
   (\<exists>tv. fst (getTime (fixed_clock 46800000)
                (setFormat (JStr ''24h'') (time_state0 46800000))) = Inr tv \<and>
         rawHours tv = 13 \<and> hours tv = padZero 13 \<and> period tv = ''AM'')"
proof -
  have a: "\<exists>tv. fst (getTime (fixed_clock 0) (time_state0 0)) = Inr tv \<and>
         hours tv = ''12'' \<and> period tv = ''AM''"
    using getTime_hour_display [OF calendar_now_fixed [of 0 0], of 0]
    by (auto simp: hours_fixed format24_state0)
  have b: "\<exists>tv. fst (getTime (fixed_clock 43200000) (time_state0 43200000)) = Inr tv \<and>
         hours tv = ''12'' \<and> period tv = ''PM''"
    using getTime_hour_display [OF calendar_now_fixed [of 43200000 43200000], of 12]
    by (auto simp: hours_fixed format24_state0)
  have c: "\<exists>tv. fst (getTime (fixed_clock 46800000) (time_state0 46800000)) = Inr tv \<and>
         hours tv = ''01'' \<and> period tv = ''PM''"
    using getTime_hour_display [OF calendar_now_fixed [of 46800000 46800000], of 13]
    by (auto simp: hours_fixed format24_state0)
  have cal: "calendar_now (fixed_clock 46800000) (setFormat (JStr ''24h'') (time_state0 46800000))
      = Some (utc_fields 46800000)"
    by (simp add: calendar_now_setFormat calendar_now_fixed)
  have d: "\<exists>tv. fst (getTime (fixed_clock 46800000)
                (setFormat (JStr ''24h'') (time_state0 46800000))) = Inr tv \<and>
         rawHours tv = 13 \<and> hours tv = padZero 13 \<and> period tv = ''AM''"
    using getTime_hour_display [OF cal, of 13]
    by (auto simp: hours_fixed setFormat_format24)
  from a b c d show ?thesis by (intro conjI)
qed

subsection \<open>The display format\<close>

text \<open>
  C10: \<open>setFormat\<close> selects 24-hour mode exactly when its argument is the string \<open>24h\<close>;
  anything else, such as the boolean true, \<open>24H\<close> or any other string, selects 12-hour
  mode, and in every case a \<open>formatChanged\<close> event carrying the argument as given is sent.
\<close>

theorem setFormat_only_24h:
  "format24 (fst (setFormat v (m, h))) = (v = JStr ''24h'') \<and>
   emitted (snd (setFormat v (m, h))) = emitted h @ [formatChanged v] \<and>
   \<not> format24 (fst (setFormat (JBool True) (m, h))) \<and>
   \<not> format24 (fst (setFormat (JStr ''24H'') (m, h))) \<and>
   \<not> format24 (fst (setFormat (JStr ''12h'') (m, h))) \<and>
   format24 (fst (setFormat (JStr ''24h'') (m, h)))"
  by (simp add: setFormat_def dispatchEvent_def)

subsection \<open>Hand angles\<close>

lemma getHandAngles_returns:
  "fst (getTime env s) = Inr tv \<Longrightarrow>
   fst (getHandAngles env s) =
     Inr \<lparr>hour = (real (rawHours tv) / 12) * 360 + (real (rawMinutes tv) / 60) * 30,
          minute = (real (rawMinutes tv) / 60) * 360 + (real (rawSeconds tv) / 60) * 6,
          second = (real (rawSeconds tv) / 60) * 360\<rparr>"
  by (simp add: getHandAngles_def Let_def split_beta)

lemma getHandAngles_throws:
  "fst (getTime env s) = Inl e \<Longrightarrow> fst (getHandAngles env s) = Inl e"
  by (simp add: getHandAngles_def split_beta)

lemma minute_second_angles_in_range:
  assumes "calendar_now env s = Some date" and "getMinutes date < 60" and "getSeconds date < 60"
  shows "\<exists>a. fst (getHandAngles env s) = Inr a \<and>
             0 \<le> minute a \<and> minute a < 360 \<and> 0 \<le> second a \<and> second a < 360"
proof -
  from getTime_returns [OF assms(1)] obtain tv where tv: "fst (getTime env s) = Inr tv"
    and f: "rawMinutes tv = getMinutes date" "rawSeconds tv = getSeconds date"
    by auto
  from assms(2,3) have "real (getMinutes date) \<le> 59" and "real (getSeconds date) \<le> 59"
    by simp_all
  then show ?thesis
    by (simp add: getHandAngles_returns [OF tv] f)
qed

lemma second_angle_values:
  assumes "calendar_now env s = Some date"
  shows "\<exists>a. fst (getHandAngles env s) = Inr a \<and>
             (getSeconds date = 0 \<longrightarrow> second a = 0) \<and>
             (getSeconds date = 30 \<longrightarrow> second a = 180)"
proof -
  from getTime_returns [OF assms] obtain tv where tv: "fst (getTime env s) = Inr tv"
    and f: "rawSeconds tv = getSeconds date"
    by auto
  show ?thesis by (simp add: getHandAngles_returns [OF tv] f)
qed

text \<open>
  C5: the minute and second angles lie in [0, 360) and the second angle is 0 at second 0
  and 180 at second 30 (the two lemmas above), but the hour angle does not stay below 360:
  at 12:30:00 in 12-hour mode it is 375, and at 13:00:00 in 24-hour mode it is 390. Angles
  are taken as real numbers; the quotients in these two runs are exact in binary floating
  point as well.
\<close>

theorem hour_angle_leaves_range:
  "(\<exists>a. fst (getHandAngles (fixed_clock 45000000) (time_state0 45000000)) = Inr a \<and>
        hour a = 375 \<and> \<not> hour a < 360) \<and>
   (\<exists>a. fst (getHandAngles (fixed_clock 46800000)
               (setFormat (JStr ''24h'') (time_state0 46800000))) = Inr a \<and>
        hour a = 390)"
proof -
  from getTime_returns [OF calendar_now_fixed [of 45000000 45000000]]
  obtain tv where tv: "fst (getTime (fixed_clock 45000000) (time_state0 45000000)) = Inr tv"
    and f: "rawHours tv = 12" "rawMinutes tv = 30"
    by (auto simp: format24_state0 utc_fields_def)
  have cal: "calendar_now (fixed_clock 46800000) (setFormat (JStr ''24h'') (time_state0 46800000))
      = Some (utc_fields 46800000)"
    by (simp add: calendar_now_setFormat calendar_now_fixed)
  from getTime_returns [OF cal]
  obtain tv' where tv': "fst (getTime (fixed_clock 46800000)
        (setFormat (JStr ''24h'') (time_state0 46800000))) = Inr tv'"
    and f': "rawHours tv' = 13" "rawMinutes tv' = 0"
    by (auto simp: setFormat_format24 utc_fields_def)
  show ?thesis
    by (simp add: getHandAngles_returns [OF tv] getHandAngles_returns [OF tv'] f f')
qed

subsection \<open>The tick scheduler\<close>

lemma correctDrift_model:
  "fst (correctDrift env (m, h)) =
     m\<lparr>driftCorrection := driftCorrection m + (lastSyncTime m + 60000 - systemClock env (clockReads h)),
       lastSyncTime := systemClock env (clockReads h)\<rparr>"
  by (simp add: correctDrift_def Date_now_def Let_def)

lemma correctDrift_host:
  "snd (correctDrift env (m, h)) = h\<lparr>clockReads := Suc (clockReads h)\<rparr>"
  by (simp add: correctDrift_def Date_now_def Let_def)

lemma onTick_model:
  "fst (snd (onTick env (m, h))) =
     (if systemClock env (clockReads h) - lastSyncTime m > 60000
      then fst (correctDrift env (m, h\<lparr>clockReads := Suc (clockReads h)\<rparr>))
      else m)"
  by (simp add: onTick_def Date_now_def Let_def split_beta getTime_state correctDrift_model
           split: option.split sum.split)

lemma onTick_timeouts: "timeouts (snd (snd (onTick env (m, h)))) = timeouts h"
  by (simp add: onTick_def Date_now_def Let_def split_beta getTime_state correctDrift_host
        dispatchEvent_def split: option.split sum.split)

lemma onTick_callback: "callback (fst (snd (onTick env (m, h)))) = callback m"
  by (simp add: onTick_model correctDrift_model)

text \<open>
  The tick after its first clock read and the drift check, with the state \<open>s1\<close> that the
  check leaves.
\<close>

lemma onTick_unfold:
  assumes "s1 = (if systemClock env (clockReads h) - lastSyncTime m > 60000
                 then correctDrift env (m, h\<lparr>clockReads := Suc (clockReads h)\<rparr>)
                 else (m, h\<lparr>clockReads := Suc (clockReads h)\<rparr>))"
  shows "onTick env (m, h) =
     (let r2 = (case callback (fst s1) of
                  None \<Rightarrow> (None, s1)
                | Some f \<Rightarrow>
                    (case fst (getTime env s1) of
                       Inl e \<Rightarrow> (Some e, snd (getTime env s1))
                     | Inr tv \<Rightarrow>
                         (if callbackThrows env f tv then Some CallbackError else None,
                          (fst (snd (getTime env s1)),
                           dispatchEvent (callbackCalled f tv) (snd (snd (getTime env s1)))))))
      in (case fst r2 of
            Some e \<Rightarrow> r2
          | None \<Rightarrow>
              (case fst (getTime env (snd r2)) of
                 Inl e \<Rightarrow> (Some e, snd (getTime env (snd r2)))
               | Inr tv3 \<Rightarrow>
                   (None, (fst (snd (getTime env (snd r2))),
                           dispatchEvent (tick tv3) (snd (snd (getTime env (snd r2)))))))))"
  unfolding onTick_def Date_now_def Let_def split_beta assms fst_conv snd_conv
  by (rule refl)

lemma after_sync_fields:
  assumes "s1 = (if systemClock env (clockReads h) - lastSyncTime m > 60000
                 then correctDrift env (m, h\<lparr>clockReads := Suc (clockReads h)\<rparr>)
                 else (m, h\<lparr>clockReads := Suc (clockReads h)\<rparr>))"
  shows "timezone (fst s1) = timezone m" "callback (fst s1) = callback m"
    "emitted (snd s1) = emitted h"
    "clockReads (snd s1) =
       clockReads h + (if systemClock env (clockReads h) - lastSyncTime m > 60000 then 2 else 1)"
  unfolding assms by (simp_all add: correctDrift_model correctDrift_host)

text \<open>A tick in the local zone whose callback does not throw returns normally.\<close>

lemma getTime_local_returns:
  "timezone (fst s) = ''local'' \<Longrightarrow> \<exists>tv. fst (getTime env s) = Inr tv"
  using getTime_returns [OF calendar_now_local] by blast

lemma onTick_local_returns:
  assumes "timezone m = ''local''"
    and "\<forall>f tv. callback m = Some f \<longrightarrow> \<not> callbackThrows env f tv"
  shows "fst (onTick env (m, h)) = None"
proof -
  define s1 where "s1 = (if systemClock env (clockReads h) - lastSyncTime m > 60000
                 then correctDrift env (m, h\<lparr>clockReads := Suc (clockReads h)\<rparr>)
                 else (m, h\<lparr>clockReads := Suc (clockReads h)\<rparr>))"
  note u = onTick_unfold [OF s1_def] and f = after_sync_fields [OF s1_def]
  have tz: "timezone (fst s1) = ''local''" using f(1) assms(1) by simp
  show ?thesis
  proof (cases "callback m")
    case None
    from getTime_local_returns [OF tz] obtain tv where "fst (getTime env s1) = Inr tv"
      by blast
    with None f(2) show ?thesis by (simp add: u)
  next
    case (Some g)
    from getTime_local_returns [OF tz] obtain tv where tv: "fst (getTime env s1) = Inr tv"
      by blast
    define s2 where "s2 = (fst (snd (getTime env s1)),
                dispatchEvent (callbackCalled g tv) (snd (snd (getTime env s1))))"
    have "timezone (fst s2) = ''local''" using tz by (simp add: s2_def getTime_state)
    from getTime_local_returns [OF this] obtain tv' where tv': "fst (getTime env s2) = Inr tv'"
      by blast
    from assms(2) Some have q: "\<not> callbackThrows env g tv" by blast
    from Some f(2) tv tv' q show ?thesis by (simp add: u s2_def [symmetric])
  qed
qed


lemma onTick_emitted:
  assumes "callback m = Some g" and "fst (onTick env (m, h)) = None"
  shows "\<exists>tv1 tv2. emitted (snd (snd (onTick env (m, h)))) =
           emitted h @ [callbackCalled g tv1, tick tv2]"
proof -
  define s1 where "s1 = (if systemClock env (clockReads h) - lastSyncTime m > 60000
                 then correctDrift env (m, h\<lparr>clockReads := Suc (clockReads h)\<rparr>)
                 else (m, h\<lparr>clockReads := Suc (clockReads h)\<rparr>))"
  note u = onTick_unfold [OF s1_def] and f = after_sync_fields [OF s1_def]
  have cb: "callback (fst s1) = Some g" using f(2) assms(1) by simp
  from assms(2) cb obtain tv where tv: "fst (getTime env s1) = Inr tv"
    by (cases "fst (getTime env s1)") (simp_all add: u)
  define s2 where "s2 = (fst (snd (getTime env s1)),
                dispatchEvent (callbackCalled g tv) (snd (snd (getTime env s1))))"
  from assms(2) cb tv have q: "\<not> callbackThrows env g tv"
    by (auto simp: u split: if_splits)
  from assms(2) cb tv q obtain tv' where tv': "fst (getTime env s2) = Inr tv'"
    by (cases "fst (getTime env s2)") (simp_all add: u s2_def [symmetric])
  have e2: "emitted (snd s2) = emitted h @ [callbackCalled g tv]"
    by (simp add: s2_def getTime_state dispatchEvent_def f(3))
  have eq: "onTick env (m, h) =
      (None, (fst (snd (getTime env s2)), dispatchEvent (tick tv') (snd (snd (getTime env s2)))))"
    using cb tv q tv' by (simp add: u s2_def [symmetric])
  have "emitted (snd (snd (onTick env (m, h)))) = emitted h @ [callbackCalled g tv, tick tv']"
    by (simp add: eq getTime_state dispatchEvent_def e2)
  then show ?thesis by blast
qed


lemma scheduleNextTick_model: "fst (scheduleNextTick env s) = fst s"
  by (cases s) (simp add: scheduleNextTick_def Date_now_def Let_def)

lemma scheduleNextTick_timeouts:
  "timeouts (snd (scheduleNextTick env s)) =
     timeouts (snd s) @ [1000 - js_rem (systemClock env (clockReads (snd s))) 1000]"
  by (cases s) (simp add: scheduleNextTick_def Date_now_def Let_def)

lemma scheduleNextTick_emitted: "emitted (snd (scheduleNextTick env s)) = emitted (snd s)"
  by (cases s) (simp add: scheduleNextTick_def Date_now_def Let_def)


lemma timeoutFires_returns:
  assumes "k < length (timeouts h)"
    and "fst (onTick env (m, h\<lparr>timeouts := take k (timeouts h) @ drop (Suc k) (timeouts h)\<rparr>)) = None"
  shows "timeoutFires env k (m, h) =
           (None, scheduleNextTick env
                    (snd (onTick env
                       (m, h\<lparr>timeouts := take k (timeouts h) @ drop (Suc k) (timeouts h)\<rparr>))))"
  using assms by (simp add: timeoutFires_def split_beta)




lemma started_state_eq:
  "started_state =
     scheduleNextTick (fixed_clock 0)
       ((fst (time_state0 0))\<lparr>callback := Some 1\<rparr>, snd (time_state0 0))"
  by (simp add: started_state_def start_def Let_def split_beta)

lemma started_state_fields:
  "fst started_state = (fst (time_state0 0))\<lparr>callback := Some 1\<rparr>"
  "timeouts (snd started_state) = [1000]" "emitted (snd started_state) = []"
  by (simp_all add: started_state_eq scheduleNextTick_model scheduleNextTick_timeouts
        scheduleNextTick_emitted time_state0_fields fixed_clock_read js_rem_def)





subsection \<open>Drift correction\<close>

text \<open>
  C6: when a tick reads the clock more than 60000 ms after the last sync, the difference
  between 60000 and the time that really passed (up to the clock read of \<open>_correctDrift\<close>)
  is added to \<open>driftCorrection\<close> and the sync anchor becomes that clock read; a tick that
  comes 65000 ms after the sync moves \<open>driftCorrection\<close> by -5000. Otherwise the model is
  unchanged. This holds of the state the tick leaves whether or not it throws later on.
  \<open>getTime\<close> reads the calendar at the clock value plus \<open>driftCorrection\<close>.
\<close>

theorem onTick_drift_correction:
  assumes "t1 = systemClock env (clockReads h)" and "t2 = systemClock env (Suc (clockReads h))"
  shows "(t1 - lastSyncTime m > 60000 \<longrightarrow>
            driftCorrection (fst (snd (onTick env (m, h)))) =
              driftCorrection m + (60000 - (t2 - lastSyncTime m)) \<and>
            lastSyncTime (fst (snd (onTick env (m, h)))) = t2) \<and>
         (t1 = lastSyncTime m + 65000 \<and> t2 = t1 \<longrightarrow>
            driftCorrection (fst (snd (onTick env (m, h)))) = driftCorrection m - 5000 \<and>
            lastSyncTime (fst (snd (onTick env (m, h)))) = lastSyncTime m + 65000) \<and>
         (\<not> t1 - lastSyncTime m > 60000 \<longrightarrow> fst (snd (onTick env (m, h))) = m) \<and>
         map_sum id raw (fst (getTime env (m, h))) =
           (case (if timezone m = ''local'' then Some (localFields env (t1 + driftCorrection m))
                  else zoneFields env (timezone m) (t1 + driftCorrection m)) of
              None \<Rightarrow> Inl RangeError
            | Some date \<Rightarrow> Inr date)"
proof -
  have g: "map_sum id raw (fst (getTime env (m, h))) =
      (case calendar_now env (m, h) of None \<Rightarrow> Inl RangeError | Some date \<Rightarrow> Inr date)"
    by (cases "calendar_now env (m, h)") (simp_all add: getTime_throws getTime_value)
  show ?thesis
    using assms by (simp add: onTick_model correctDrift_model g calendar_now_def)
qed

theorem onTick_drift_correction_witness:
  "systemClock (fixed_clock 65000) (clockReads (snd (time_state0 0)))
     - lastSyncTime (fst (time_state0 0)) > 60000 \<and>
   systemClock (fixed_clock 65000) (clockReads (snd (time_state0 0)))
     = lastSyncTime (fst (time_state0 0)) + 65000 \<and>
   driftCorrection (fst (time_state0 0)) = 0 \<and>
   driftCorrection (fst (snd (onTick (fixed_clock 65000) (time_state0 0)))) = - 5000 \<and>
   lastSyncTime (fst (snd (onTick (fixed_clock 65000) (time_state0 0)))) = 65000 \<and>
   \<not> systemClock (fixed_clock 59000) (clockReads (snd (time_state0 0)))
       - lastSyncTime (fst (time_state0 0)) > 60000 \<and>
   fst (snd (onTick (fixed_clock 59000) (time_state0 0))) = fst (time_state0 0)"
proof -
  have a: "driftCorrection (fst (snd (onTick (fixed_clock 65000) (time_state0 0)))) = - 5000 \<and>
           lastSyncTime (fst (snd (onTick (fixed_clock 65000) (time_state0 0)))) = 65000"
    using onTick_drift_correction [of 65000 "fixed_clock 65000" "snd (time_state0 0)" 65000
        "fst (time_state0 0)"]
    by (simp add: fixed_clock_read time_state0_fields)
  have b: "fst (snd (onTick (fixed_clock 59000) (time_state0 0))) = fst (time_state0 0)"
    using onTick_drift_correction [of 59000 "fixed_clock 59000" "snd (time_state0 0)" 59000
        "fst (time_state0 0)"]
    by (simp add: fixed_clock_read time_state0_fields)
  from a b show ?thesis by (simp add: fixed_clock_read time_state0_fields)
qed

subsection \<open>Stopping\<close>

lemma stop_noop: "animationFrameId (fst s) = None \<Longrightarrow> stop s = s"
  by (cases s) (simp add: stop_def)

lemma stop_idempotent: "stop (stop s) = stop s"
  by (cases s) (simp add: stop_def split: option.split)

lemma start_state: "snd (start env cb (m, h)) = scheduleNextTick env (m\<lparr>callback := cb\<rparr>, h)"
  by (simp add: start_def Let_def)

lemma start_handle: "fst (start env cb (m, h)) = animationFrameId m"
  by (simp add: start_def Let_def scheduleNextTick_model)

lemma animationFrameId_kept:
  "animationFrameId (fst (snd (start env cb (m, h)))) = animationFrameId m"
  "animationFrameId (fst (snd (onTick env (m, h)))) = animationFrameId m"
  "animationFrameId (fst (scheduleNextTick env s)) = animationFrameId (fst s)"
  "animationFrameId (fst (setFormat v s)) = animationFrameId (fst s)"
  "animationFrameId (fst (setTimezone tz s)) = animationFrameId (fst s)"
  by (simp_all add: start_state scheduleNextTick_model onTick_model correctDrift_model
        setFormat_def setTimezone_def split_beta)

lemma timeoutFires_emitted:
  assumes "k < length (timeouts h)" and "callback m = Some g"
    and "fst (onTick env (m, h\<lparr>timeouts := take k (timeouts h) @ drop (Suc k) (timeouts h)\<rparr>)) = None"
  shows "\<exists>tv1 tv2. emitted (snd (snd (timeoutFires env k (m, h)))) =
           emitted h @ [callbackCalled g tv1, tick tv2]"
proof -
  let ?h = "h\<lparr>timeouts := take k (timeouts h) @ drop (Suc k) (timeouts h)\<rparr>"
  from onTick_emitted [OF assms(2,3)] obtain tv1 tv2
    where "emitted (snd (snd (onTick env (m, ?h)))) = emitted h @ [callbackCalled g tv1, tick tv2]"
    by auto
  then have "emitted (snd (snd (timeoutFires env k (m, h)))) =
      emitted h @ [callbackCalled g tv1, tick tv2]"
    unfolding timeoutFires_returns [OF assms(1,3)] snd_conv scheduleNextTick_emitted .
  then show ?thesis by blast
qed

text \<open>
  C2: \<open>stop()\<close> is idempotent and does nothing when no animation frame id is held (the
  lemmas above), but it does not cancel the scheduler: no operation ever stores an id, so
  after \<open>start\<close> and \<open>stop\<close> the timer is still armed, and when it fires the callback is
  called, a tick event is sent and the next timer is armed.
\<close>

theorem stop_does_not_cancel:
  "fst (start (fixed_clock 0) (Some 1) (time_state0 0)) = None \<and>
   stop started_state = started_state \<and>
   timeouts (snd (stop started_state)) = [1000] \<and>
   emitted (snd (stop started_state)) = [] \<and>
   fst (timeoutFires (fixed_clock 0) 0 (stop started_state)) = None \<and>
   (\<exists>tv1 tv2. emitted (snd (snd (timeoutFires (fixed_clock 0) 0 (stop started_state)))) =
                [callbackCalled 1 tv1, tick tv2]) \<and>
   timeouts (snd (snd (timeoutFires (fixed_clock 0) 0 (stop started_state)))) = [1000]"
proof -
  let ?E = "fixed_clock 0"
  let ?m = "(fst (time_state0 0))\<lparr>callback := Some 1\<rparr>"
  let ?h = "snd started_state"
  let ?h' = "?h\<lparr>timeouts := take 0 (timeouts ?h) @ drop (Suc 0) (timeouts ?h)\<rparr>"
  have h0: "fst (start ?E (Some 1) (time_state0 0)) = None"
    using start_handle [of ?E "Some 1" "fst (time_state0 0)" "snd (time_state0 0)"]
    by (simp add: time_state0_fields)
  note m = started_state_fields(1) and t = started_state_fields(2)
    and e = started_state_fields(3)
  have noop: "stop started_state = started_state"
    by (rule stop_noop) (simp add: m time_state0_fields)
  have pair: "started_state = (?m, ?h)"
    using m by (metis prod.collapse)
  have k: "0 < length (timeouts ?h)" by (simp add: t)
  have ok: "fst (onTick ?E (?m, ?h')) = None"
    by (rule onTick_local_returns) (simp_all add: time_state0_fields fixed_clock_quiet)
  have r: "fst (timeoutFires ?E 0 (?m, ?h)) = None"
    unfolding timeoutFires_returns [OF k ok] by simp
  have fire: "\<exists>tv1 tv2. emitted (snd (snd (timeoutFires ?E 0 (?m, ?h)))) =
                emitted ?h @ [callbackCalled 1 tv1, tick tv2]"
    by (rule timeoutFires_emitted [OF k _ ok]) simp
  have again: "timeouts (snd (snd (timeoutFires ?E 0 (?m, ?h)))) = [1000]"
    unfolding timeoutFires_returns [OF k ok] snd_conv scheduleNextTick_timeouts onTick_timeouts
    by (simp add: t fixed_clock_read js_rem_def)
  have tf: "timeoutFires ?E 0 started_state = timeoutFires ?E 0 (?m, ?h)"
    by (rule arg_cong [OF pair])
  have
    "fst (timeoutFires ?E 0 started_state) = None \<and>
     (\<exists>tv1 tv2. emitted (snd (snd (timeoutFires ?E 0 started_state))) =
                [callbackCalled 1 tv1, tick tv2]) \<and>
     timeouts (snd (snd (timeoutFires ?E 0 started_state))) = [1000]"
    unfolding tf using r fire again unfolding e by simp
  with h0 noop t e show ?thesis by simp
qed

section \<open>Properties of the alarm\<close>

subsection \<open>Setting an alarm\<close>

lemma setAlarm_valid:
  "isValidTimeFormat t \<Longrightarrow>
   fst (setAlarm env t en s) = None \<and>
   getAlarm (snd (setAlarm env t en s)) =
     Some \<lparr>alarm_id = nowMs env, time = t, enabled = en, createdAt = nowIso env\<rparr>"
  by (cases s)
     (simp add: setAlarm_def getAlarm_def saveToStorage_def dispatchAlarmEvent_def Let_def)

lemma setAlarm_invalid: "\<not> isValidTimeFormat t \<Longrightarrow> setAlarm env t en s = (Some InvalidFormat, s)"
  by (simp add: setAlarm_def)

text \<open>
  C4: for every string of the \<open>HH:MM\<close> form (hours 00 to 23, minutes 00 to 59) \<open>setAlarm\<close>
  succeeds and \<open>getAlarm().time\<close> is that string; for every other string, among them
  \<open>24:00\<close>, \<open>9:30\<close> and \<open>12:60\<close>, it throws the invalid-format error and the state, with
  any earlier alarm, what is stored and the events sent, is exactly as before.
\<close>

theorem setAlarm_echo_or_reject:
  "((\<exists>h<24. \<exists>m<60. t = hhmm h m) \<longrightarrow>
      fst (setAlarm env t en s) = None \<and>
      map_option time (getAlarm (snd (setAlarm env t en s))) = Some t) \<and>
   (\<not> (\<exists>h<24. \<exists>m<60. t = hhmm h m) \<longrightarrow> setAlarm env t en s = (Some InvalidFormat, s)) \<and>
   setAlarm env ''24:00'' en s = (Some InvalidFormat, s) \<and>
   setAlarm env ''9:30'' en s = (Some InvalidFormat, s) \<and>
   setAlarm env ''12:60'' en s = (Some InvalidFormat, s)"
proof -
  have ok: "(\<exists>h<24. \<exists>m<60. t = hhmm h m) \<longrightarrow>
      fst (setAlarm env t en s) = None \<and>
      map_option time (getAlarm (snd (setAlarm env t en s))) = Some t"
    using setAlarm_valid [of t env en s] by (simp add: isValidTimeFormat_iff)
  have bad: "\<not> (\<exists>h<24. \<exists>m<60. t = hhmm h m) \<longrightarrow> setAlarm env t en s = (Some InvalidFormat, s)"
    using setAlarm_invalid [of t env en s] by (simp add: isValidTimeFormat_iff)
  have e1: "setAlarm env ''24:00'' en s = (Some InvalidFormat, s)"
    by (rule setAlarm_invalid) (simp add: isValidTimeFormat_def)
  have e2: "setAlarm env ''9:30'' en s = (Some InvalidFormat, s)"
    by (rule setAlarm_invalid) (simp add: isValidTimeFormat_def)
  have e3: "setAlarm env ''12:60'' en s = (Some InvalidFormat, s)"
    by (rule setAlarm_invalid) (simp add: isValidTimeFormat_def)
  from ok bad e1 e2 e3 show ?thesis by blast
qed

theorem setAlarm_echo_or_reject_witness:
  "(\<exists>h<24. \<exists>m<60. ''07:30'' = hhmm h m) \<and>
   fst (setAlarm alarm_env0 ''07:30'' True alarm_state0) = None \<and>
   map_option time (getAlarm (snd (setAlarm alarm_env0 ''07:30'' True alarm_state0))) = Some ''07:30'' \<and>
   \<not> (\<exists>h<24. \<exists>m<60. ''23:60'' = hhmm h m) \<and>
   setAlarm alarm_env0 ''23:60'' True alarm_state0 = (Some InvalidFormat, alarm_state0)"
proof -
  have a: "\<exists>h<24. \<exists>m<60. ''07:30'' = hhmm h m"
  proof (intro exI conjI)
    show "(7::nat) < 24" and "(30::nat) < 60" by simp_all
    show "''07:30'' = hhmm 7 30" by (simp add: hhmm_7_30)
  qed
  have "\<not> isValidTimeFormat ''23:60''" by (simp add: isValidTimeFormat_def)
  then have b: "\<not> (\<exists>h<24. \<exists>m<60. ''23:60'' = hhmm h m)"
    using isValidTimeFormat_iff [of "''23:60''"] by blast
  from a b
    setAlarm_echo_or_reject [of "''07:30''" alarm_env0 True alarm_state0]
    setAlarm_echo_or_reject [of "''23:60''" alarm_env0 True alarm_state0]
  show ?thesis by blast
qed

subsection \<open>The time-format invariant\<close>

lemma inv_new: "alarm_ok (stored h) \<Longrightarrow> alarm_inv (AlarmModel_new works h)"
  by (auto simp: alarm_inv_def alarm_ok_def AlarmModel_new_def loadFromStorage_def
           split: option.splits)

lemma inv_setAlarm: "alarm_inv s \<Longrightarrow> alarm_inv (snd (setAlarm env t en s))"
  by (cases s)
     (auto simp: alarm_inv_def alarm_ok_def setAlarm_def saveToStorage_def
                 dispatchAlarmEvent_def Let_def split: option.splits)

lemma inv_clearAlarm: "alarm_inv s \<Longrightarrow> alarm_inv (clearAlarm env s)"
  by (cases s)
     (auto simp: alarm_inv_def alarm_ok_def clearAlarm_def saveToStorage_def
                 dispatchAlarmEvent_def split: option.splits)

lemma inv_toggleAlarm: "alarm_inv s \<Longrightarrow> alarm_inv (toggleAlarm env en s)"
  by (cases s)
     (auto simp: alarm_inv_def alarm_ok_def toggleAlarm_def saveToStorage_def
                 dispatchAlarmEvent_def split: option.splits)

lemma reachable_inv: "reachable s \<Longrightarrow> alarm_inv s"
proof (induction rule: reachable.induct)
  case (fresh works)
  show ?case by (rule inv_new) (simp add: alarm_ok_def alarm_host0_def)
next
  case (set s env t en)
  from set.IH show ?case by (rule inv_setAlarm)
next
  case (clear s env)
  from clear.IH show ?case by (rule inv_clearAlarm)
next
  case (toggle s env en)
  from toggle.IH show ?case by (rule inv_toggleAlarm)
next
  case (reload s works)
  from reload.IH show ?case by (intro inv_new) (simp add: alarm_inv_def)
qed

text \<open>
  C8: in every state reached by calls of \<open>setAlarm\<close>, \<open>clearAlarm\<close> and \<open>toggleAlarm\<close> (and by
  reloading the page) the alarm in memory and the one in storage are absent or have a time
  that matches \<open>^([01][0-9]|2[0-3]):[0-5][0-9]$\<close>; and a call of \<open>setAlarm\<close> either fails
  and changes nothing or installs a whole new alarm with a valid time.
\<close>

theorem alarm_time_always_valid:
  assumes "reachable s"
  shows "alarm_ok (activeAlarm (fst s)) \<and> alarm_ok (stored (snd s)) \<and>
         (\<forall>env t en.
            setAlarm env t en s = (Some InvalidFormat, s) \<or>
            (isValidTimeFormat t \<and> fst (setAlarm env t en s) = None \<and>
             getAlarm (snd (setAlarm env t en s)) =
               Some \<lparr>alarm_id = nowMs env, time = t, enabled = en, createdAt = nowIso env\<rparr>))"
proof -
  have "alarm_inv s" using assms by (rule reachable_inv)
  moreover have "setAlarm env t en s = (Some InvalidFormat, s) \<or>
            (isValidTimeFormat t \<and> fst (setAlarm env t en s) = None \<and>
             getAlarm (snd (setAlarm env t en s)) =
               Some \<lparr>alarm_id = nowMs env, time = t, enabled = en, createdAt = nowIso env\<rparr>)"
    for env t en
    using setAlarm_valid [of t env en s] setAlarm_invalid [of t env en s] by blast
  ultimately show ?thesis by (simp add: alarm_inv_def)
qed

theorem alarm_time_always_valid_witness:
  "reachable alarm_state1 \<and>
   map_option time (activeAlarm (fst alarm_state1)) = Some ''07:30'' \<and>
   alarm_ok (activeAlarm (fst alarm_state1)) \<and> alarm_ok (stored (snd alarm_state1))"
proof -
  have r: "reachable alarm_state1"
    unfolding alarm_state1_def alarm_state0_def
    by (intro reachable.toggle reachable.set reachable.fresh)
  have t: "map_option time (activeAlarm (fst alarm_state1)) = Some ''07:30''"
    by (simp add: alarm_state1_def alarm_state0_def alarm_env0_def alarm_host0_def
          AlarmModel_new_def loadFromStorage_def setAlarm_def isValidTimeFormat_def
          saveToStorage_def dispatchAlarmEvent_def toggleAlarm_def Let_def)
  from r t alarm_time_always_valid [OF r] show ?thesis by blast
qed

subsection \<open>Triggering\<close>

lemma shouldTrigger_hhmm:
  assumes "h < 24" "m < 60" "activeAlarm (fst s) = Some a" "time a = hhmm h m"
  shows "shouldTrigger s tv = (enabled a \<and> rawHours tv = h \<and> rawMinutes tv = m \<and> rawSeconds tv = 0)"
proof -
  have "map Number (split (CHR '':'') (time a)) = [Some h, Some m]"
    using assms by (simp add: split_hhmm Number_two_digits)
  then show ?thesis
    using assms(3) by (auto simp: shouldTrigger_def element_def Let_def)
qed

lemma raw_0730:
  "rawHours time_value_0730 = 7 \<and> rawMinutes time_value_0730 = 30 \<and>
   rawSeconds time_value_0730 = 0"
  by (simp add: time_value_0730_def)

lemma alarm_state0_empty: "activeAlarm (fst alarm_state0) = None"
  by (simp add: alarm_state0_def alarm_host0_def AlarmModel_new_def loadFromStorage_def)

lemma alarm_state2_alarm:
  "activeAlarm (fst alarm_state2) =
     Some \<lparr>alarm_id = 0, time = ''07:30'', enabled = True,
           createdAt = ''1970-01-01T00:00:00.000Z''\<rparr>"
proof -
  have "isValidTimeFormat ''07:30''" by (simp add: isValidTimeFormat_def)
  from setAlarm_valid [OF this, of alarm_env0 True alarm_state0] show ?thesis
    by (simp add: getAlarm_def alarm_state2_def alarm_env0_def)
qed

lemma toggleAlarm_active:
  "activeAlarm (fst s) = Some a \<Longrightarrow>
   activeAlarm (fst (toggleAlarm env en s)) = Some (a\<lparr>enabled := en\<rparr>)"
  by (cases s) (simp add: toggleAlarm_def saveToStorage_def dispatchAlarmEvent_def)

lemma alarm_state1_alarm:
  "activeAlarm (fst alarm_state1) =
     Some \<lparr>alarm_id = 0, time = ''07:30'', enabled = False,
           createdAt = ''1970-01-01T00:00:00.000Z''\<rparr>"
proof -
  have "alarm_state1 = toggleAlarm alarm_env0 False alarm_state2"
    by (simp add: alarm_state1_def alarm_state2_def)
  then show ?thesis
    using toggleAlarm_active [OF alarm_state2_alarm, of alarm_env0 False] by simp
qed

lemma shouldTrigger_reachable:
  assumes "reachable s"
  shows "shouldTrigger s tv =
           (\<exists>a h m. h < 24 \<and> m < 60 \<and> activeAlarm (fst s) = Some a \<and> time a = hhmm h m \<and>
                    enabled a \<and> rawHours tv = h \<and> rawMinutes tv = m \<and> rawSeconds tv = 0)"
proof (cases "activeAlarm (fst s)")
  case None
  then show ?thesis by (simp add: shouldTrigger_def)
next
  case (Some a)
  from reachable_inv [OF assms] Some have "isValidTimeFormat (time a)"
    by (simp add: alarm_inv_def alarm_ok_def)
  then obtain h m where hm: "h < 24" "m < 60" "time a = hhmm h m"
    using valid_is_hhmm by blast
  show ?thesis
  proof
    assume "shouldTrigger s tv"
    with shouldTrigger_hhmm [OF hm(1,2) Some hm(3), of tv] hm Some show
      "\<exists>a h m. h < 24 \<and> m < 60 \<and> activeAlarm (fst s) = Some a \<and> time a = hhmm h m \<and>
                enabled a \<and> rawHours tv = h \<and> rawMinutes tv = m \<and> rawSeconds tv = 0"
      by blast
  next
    assume "\<exists>a h m. h < 24 \<and> m < 60 \<and> activeAlarm (fst s) = Some a \<and> time a = hhmm h m \<and>
                enabled a \<and> rawHours tv = h \<and> rawMinutes tv = m \<and> rawSeconds tv = 0"
    then obtain a' h' m' where *: "h' < 24" "m' < 60" "activeAlarm (fst s) = Some a'"
        "time a' = hhmm h' m'" "enabled a'" "rawHours tv = h'" "rawMinutes tv = m'"
        "rawSeconds tv = 0"
      by blast
    with shouldTrigger_hhmm [OF *(1,2,3,4), of tv] show "shouldTrigger s tv" by simp
  qed
qed

lemma alarm_state2_reachable: "reachable alarm_state2"
  unfolding alarm_state2_def alarm_state0_def by (intro reachable.set reachable.fresh)

text \<open>
  C3: with an alarm at hour \<open>h\<close> and minute \<open>m\<close>, \<open>shouldTrigger\<close> is true exactly when the
  alarm is enabled, \<open>rawHours\<close> is \<open>h\<close>, \<open>rawMinutes\<close> is \<open>m\<close> and \<open>rawSeconds\<close> is 0; with no
  alarm or a disabled one it answers false (it has no failing branch); in every reachable
  state the alarm's time has that form, so there the answer is true exactly when such an
  enabled alarm exists and the three fields match. After
  \<open>setAlarm("07:30")\<close> the time values 07:29:59, 07:30:00 and 07:30:01 give false, true, false.
\<close>

theorem shouldTrigger_iff:
  "(\<forall>a h m. h < 24 \<and> m < 60 \<and> activeAlarm (fst s) = Some a \<and> time a = hhmm h m \<longrightarrow>
      shouldTrigger s tv = (enabled a \<and> rawHours tv = h \<and> rawMinutes tv = m \<and> rawSeconds tv = 0)) \<and>
   (activeAlarm (fst s) = None \<longrightarrow> shouldTrigger s tv = False) \<and>
   (\<forall>a. activeAlarm (fst s) = Some a \<and> \<not> enabled a \<longrightarrow> shouldTrigger s tv = False) \<and>
   (reachable s \<longrightarrow>
      shouldTrigger s tv =
        (\<exists>a h m. h < 24 \<and> m < 60 \<and> activeAlarm (fst s) = Some a \<and> time a = hhmm h m \<and>
                 enabled a \<and> rawHours tv = h \<and> rawMinutes tv = m \<and> rawSeconds tv = 0)) \<and>
   shouldTrigger (snd (setAlarm env ''07:30'' True s))
     (tv\<lparr>rawHours := 7, rawMinutes := 29, rawSeconds := 59\<rparr>) = False \<and>
   shouldTrigger (snd (setAlarm env ''07:30'' True s))
     (tv\<lparr>rawHours := 7, rawMinutes := 30, rawSeconds := 0\<rparr>) = True \<and>
   shouldTrigger (snd (setAlarm env ''07:30'' True s))
     (tv\<lparr>rawHours := 7, rawMinutes := 30, rawSeconds := 1\<rparr>) = False"
proof -
  let ?s' = "snd (setAlarm env ''07:30'' True s)"
  have v: "isValidTimeFormat ''07:30''" by (simp add: isValidTimeFormat_def)
  have act: "activeAlarm (fst ?s') =
      Some \<lparr>alarm_id = nowMs env, time = ''07:30'', enabled = True, createdAt = nowIso env\<rparr>"
    using setAlarm_valid [OF v, of env True s] by (simp add: getAlarm_def)
  have sc: "shouldTrigger ?s' x = (rawHours x = 7 \<and> rawMinutes x = 30 \<and> rawSeconds x = 0)" for x
    using shouldTrigger_hhmm [of 7 30 ?s' _ x] act hhmm_7_30 by simp
  have none: "activeAlarm (fst s) = None \<longrightarrow> shouldTrigger s tv = False"
    by (simp add: shouldTrigger_def)
  have dis: "\<forall>a. activeAlarm (fst s) = Some a \<and> \<not> enabled a \<longrightarrow> shouldTrigger s tv = False"
    by (simp add: shouldTrigger_def)
  have parts: "\<forall>a h m. h < 24 \<and> m < 60 \<and> activeAlarm (fst s) = Some a \<and> time a = hhmm h m \<longrightarrow>
      shouldTrigger s tv = (enabled a \<and> rawHours tv = h \<and> rawMinutes tv = m \<and> rawSeconds tv = 0)"
    using shouldTrigger_hhmm [of _ _ s _ tv] by blast
  have reach: "reachable s \<longrightarrow>
      shouldTrigger s tv =
        (\<exists>a h m. h < 24 \<and> m < 60 \<and> activeAlarm (fst s) = Some a \<and> time a = hhmm h m \<and>
                 enabled a \<and> rawHours tv = h \<and> rawMinutes tv = m \<and> rawSeconds tv = 0)"
    using shouldTrigger_reachable [of s tv] by blast
  have scen: "shouldTrigger ?s' (tv\<lparr>rawHours := 7, rawMinutes := 29, rawSeconds := 59\<rparr>) = False"
    "shouldTrigger ?s' (tv\<lparr>rawHours := 7, rawMinutes := 30, rawSeconds := 0\<rparr>) = True"
    "shouldTrigger ?s' (tv\<lparr>rawHours := 7, rawMinutes := 30, rawSeconds := 1\<rparr>) = False"
    by (simp_all add: sc)
  from parts none dis reach scen show ?thesis by (intro conjI)
qed

theorem shouldTrigger_iff_witness:
  "activeAlarm (fst alarm_state0) = None \<and>
   shouldTrigger alarm_state0 time_value_0730 = False \<and>
   (\<exists>a. activeAlarm (fst alarm_state1) = Some a \<and> \<not> enabled a) \<and>
   shouldTrigger alarm_state1 time_value_0730 = False \<and>
   (\<exists>a. (7::nat) < 24 \<and> (30::nat) < 60 \<and> activeAlarm (fst alarm_state2) = Some a \<and>
        time a = hhmm 7 30 \<and> enabled a) \<and>
   shouldTrigger alarm_state2 time_value_0730 = True \<and>
   reachable alarm_state2 \<and>
   shouldTrigger alarm_state2 time_value_0730 =
     (\<exists>a h m. h < 24 \<and> m < 60 \<and> activeAlarm (fst alarm_state2) = Some a \<and> time a = hhmm h m \<and>
              enabled a \<and> rawHours time_value_0730 = h \<and>
              rawMinutes time_value_0730 = m \<and> rawSeconds time_value_0730 = 0)"
proof -
  note a0 = alarm_state0_empty
  have a1: "\<exists>a. activeAlarm (fst alarm_state1) = Some a \<and> \<not> enabled a"
    by (simp add: alarm_state1_alarm)
  have a2: "\<exists>a. (7::nat) < 24 \<and> (30::nat) < 60 \<and> activeAlarm (fst alarm_state2) = Some a \<and>
        time a = hhmm 7 30 \<and> enabled a"
    by (simp add: alarm_state2_alarm hhmm_7_30)
  from a0 shouldTrigger_iff [of alarm_state0 time_value_0730]
  have r0: "shouldTrigger alarm_state0 time_value_0730 = False" by blast
  from a1 shouldTrigger_iff [of alarm_state1 time_value_0730]
  have r1: "shouldTrigger alarm_state1 time_value_0730 = False" by blast
  from a2 raw_0730 shouldTrigger_iff [of alarm_state2 time_value_0730]
  have r2: "shouldTrigger alarm_state2 time_value_0730 = True" by blast
  from alarm_state2_reachable shouldTrigger_iff [of alarm_state2 time_value_0730]
  have r3: "shouldTrigger alarm_state2 time_value_0730 =
     (\<exists>a h m. h < 24 \<and> m < 60 \<and> activeAlarm (fst alarm_state2) = Some a \<and> time a = hhmm h m \<and>
              enabled a \<and> rawHours time_value_0730 = h \<and>
              rawMinutes time_value_0730 = m \<and> rawSeconds time_value_0730 = 0)"
    by blast
  from a0 a1 a2 r0 r1 r2 r3 alarm_state2_reachable show ?thesis by (intro conjI)
qed

section \<open>Raw hours\<close>

text \<open>
  C1: \<open>rawMinutes\<close> and \<open>rawSeconds\<close> are the calendar fields (see \<open>getTime_returns\<close>), but
  \<open>rawHours\<close> is taken after the 12-hour conversion: at 13:00:00 it is 1 in 12-hour mode
  and 13 in 24-hour mode, so an enabled alarm at 13:00 is not triggered by the 12-hour time
  value of 13:00:00.
\<close>

theorem rawHours_is_display_hour:
  "(\<exists>tv. fst (getTime (fixed_clock 46800000) (time_state0 46800000)) = Inr tv \<and>
         getHours (raw tv) = 13 \<and> rawHours tv = 1 \<and>
         shouldTrigger alarm_state_1300 tv = False) \<and>
   (\<exists>tv. fst (getTime (fixed_clock 46800000)
                (setFormat (JStr ''24h'') (time_state0 46800000))) = Inr tv \<and>
         getHours (raw tv) = 13 \<and> rawHours tv = 13)"
proof -
  from getTime_returns [OF calendar_now_fixed [of 46800000 46800000]]
  obtain tv where tv: "fst (getTime (fixed_clock 46800000) (time_state0 46800000)) = Inr tv"
    and f: "getHours (raw tv) = 13" "rawHours tv = 1" "rawMinutes tv = 0" "rawSeconds tv = 0"
    by (auto simp: format24_state0 utc_fields_def)
  have cal: "calendar_now (fixed_clock 46800000) (setFormat (JStr ''24h'') (time_state0 46800000))
      = Some (utc_fields 46800000)"
    by (simp add: calendar_now_setFormat calendar_now_fixed)
  from getTime_returns [OF cal]
  obtain tv' where tv': "fst (getTime (fixed_clock 46800000)
        (setFormat (JStr ''24h'') (time_state0 46800000))) = Inr tv'"
    and f': "getHours (raw tv') = 13" "rawHours tv' = 13"
    by (auto simp: setFormat_format24 utc_fields_def)
  have v: "isValidTimeFormat ''13:00''" by (simp add: isValidTimeFormat_def)
  have act: "activeAlarm (fst alarm_state_1300) =
      Some \<lparr>alarm_id = nowMs alarm_env0, time = ''13:00'', enabled = True,
            createdAt = nowIso alarm_env0\<rparr>"
    using setAlarm_valid [OF v, of alarm_env0 True alarm_state0]
    by (simp add: getAlarm_def alarm_state_1300_def)
  have d: "shouldTrigger alarm_state_1300 tv = False"
    using shouldTrigger_hhmm [of 13 0 alarm_state_1300 _ tv] act hhmm_13_00 f by simp
  from tv f d tv' f' show ?thesis by blast
qed

end
